theory Spec2Isabelle
  imports Complex_Main "HOL-Library.Signed_Division"
begin

section \<open>The InMoov UART servo controller\<close>

text \<open>
  The sketch \<^verbatim>\<open>UART_InMoov.ino\<close> reads command lines from the serial port, turns each
  command into a servo angle and hands it to the class \<^verbatim>\<open>AdaHat\<close>
  (\<^verbatim>\<open>AdaHat.h\<close>, \<^verbatim>\<open>AdaHat.cpp\<close>), which keeps the calibration and the last position
  of 32 servo channels and drives two 16-channel PWM boards.

  Integer widths are those of the 8-bit AVR boards an Arduino sketch is compiled for by
  default: \<^verbatim>\<open>int\<close> has 16 bits, \<^verbatim>\<open>long\<close> and \<^verbatim>\<open>unsigned long\<close> have 32 bits,
  \<^verbatim>\<open>byte\<close> has 8 bits and \<^verbatim>\<open>sizeof(int)\<close> is 2. Signed values are HOL integers, and every
  conversion to a C type is written out with \<open>int16\<close> or \<open>int32\<close> (two's complement
  wrap-around) or, for an \<^verbatim>\<open>unsigned long\<close>, with \<open>uint32\<close> (the value modulo \<open>2 ^ 32\<close>).
\<close>

subsection \<open>C values, arrays and errors\<close>

datatype error =
    NullPointerDereference
  | IndexOutOfBounds int
  | DivisionByZero

definition bnd :: "error + 'a \<Rightarrow> ('a \<Rightarrow> error + 'b) \<Rightarrow> error + 'b" where
  "bnd m f = (case m of Inl e \<Rightarrow> Inl e | Inr x \<Rightarrow> f x)"

definition int16 :: "int \<Rightarrow> int" where
  "int16 x = (x + 32768) mod 65536 - 32768"

definition int32 :: "int \<Rightarrow> int" where
  "int32 x = (x + 2147483648) mod 4294967296 - 2147483648"

definition uint32 :: "int \<Rightarrow> int" where
  "uint32 x = x mod 4294967296"

definition is_int :: "int \<Rightarrow> bool" where
  "is_int x = (- 32768 \<le> x \<and> x \<le> 32767)"

text \<open>Reading and writing a C array: an index outside the array is an error of the model.\<close>

definition rd :: "'a list \<Rightarrow> int \<Rightarrow> error + 'a" where
  "rd xs i = (if 0 \<le> i \<and> i < int (length xs) then Inr (xs ! nat i) else Inl (IndexOutOfBounds i))"

definition wr :: "'a list \<Rightarrow> int \<Rightarrow> 'a \<Rightarrow> error + 'a list" where
  "wr xs i v = (if 0 \<le> i \<and> i < int (length xs) then Inr (xs[nat i := v]) else Inl (IndexOutOfBounds i))"

subsection \<open>The Arduino core function \<^verbatim>\<open>map\<close>\<close>

text \<open>
  \<^verbatim>\<open>map\<close> belongs to the Arduino core, not to the sketch. The Arduino reference gives its body:
  \<^verbatim>\<open>
  long map(long x, long in_min, long in_max, long out_min, long out_max) {
    return (x - in_min) * (out_max - out_min) / (in_max - in_min) + out_min;
  }
  \<close>
  All arithmetic is \<^verbatim>\<open>long\<close> arithmetic, and \<^verbatim>\<open>/\<close> is C division, which truncates
  towards zero (\<open>sdiv\<close>). A zero divisor is an error of the model.
\<close>

definition map_arduino :: "int \<Rightarrow> int \<Rightarrow> int \<Rightarrow> int \<Rightarrow> int \<Rightarrow> error + int" where
  "map_arduino x in_min in_max out_min out_max =
     (let divisor = int32 (in_max - in_min) in
      if divisor = 0 then Inl DivisionByZero
      else Inr (int32 (int32 (int32 (int32 (x - in_min) * int32 (out_max - out_min)) sdiv divisor)
                       + out_min)))"

subsection \<open>The angle mapper of the sketch\<close>

text \<open>
  \<^verbatim>\<open>
  int getCalculatedDegreesFromPercentage(int commandValue, int minimum, int maximum) {
    if (commandValue > 100) { commandValue = 100; }
    if (commandValue < 0) { commandValue = 0; }
    return map(commandValue, 0, 100, minimum, maximum);
  }
  \<close>
\<close>

definition getCalculatedDegreesFromPercentage :: "int \<Rightarrow> int \<Rightarrow> int \<Rightarrow> error + int" where
  "getCalculatedDegreesFromPercentage commandValue minimum maximum =
     (let commandValue1 = (if commandValue > 100 then 100 else commandValue);
          commandValue2 = (if commandValue1 < 0 then 0 else commandValue1)
      in bnd (map_arduino commandValue2 0 100 minimum maximum) (\<lambda>r. Inr (int16 r)))"

text \<open>
  \<^verbatim>\<open>
  int getCalculatedRelativeDegrees(int commandValue, int minimum, int maximum, int current) {
    int current_percent = map(current, minimum, maximum, 0, 100);
    int new_percent = current_percent + commandValue;
    if (new_percent > 100) { new_percent = 100; }
    if (new_percent < 0) { new_percent = 0; }
    return map(new_percent, 0, 100, minimum, maximum);
  }
  \<close>
\<close>

definition getCalculatedRelativeDegrees :: "int \<Rightarrow> int \<Rightarrow> int \<Rightarrow> int \<Rightarrow> error + int" where
  "getCalculatedRelativeDegrees commandValue minimum maximum current =
     bnd (map_arduino current minimum maximum 0 100) (\<lambda>r.
       let current_percent = int16 r;
           new_percent = int16 (current_percent + commandValue);
           new_percent1 = (if new_percent > 100 then 100 else new_percent);
           new_percent2 = (if new_percent1 < 0 then 0 else new_percent1)
       in bnd (map_arduino new_percent2 0 100 minimum maximum) (\<lambda>r. Inr (int16 r)))"

text \<open>
  The mapping as the specification words it: the percentage clamped to \<open>[0, 100]\<close>, then
  \<open>min + round ((max - min) * p / 100)\<close> with rounding to the nearest integer.
\<close>

definition clampPercentage :: "int \<Rightarrow> int" where
  "clampPercentage p = max 0 (min 100 p)"

definition fromPercentage_spec :: "int \<Rightarrow> int \<Rightarrow> int \<Rightarrow> int" where
  "fromPercentage_spec p minimum maximum =
     minimum + round (real_of_int ((maximum - minimum) * clampPercentage p) / 100)"

subsection \<open>The class \<^verbatim>\<open>AdaHat\<close>\<close>

text \<open>
  The private state of \<^verbatim>\<open>AdaHat\<close> (\<^verbatim>\<open>AdaHat.h\<close>): four arrays of 32 entries and the two
  drivers \<^verbatim>\<open>_pwm0\<close> and \<^verbatim>\<open>_pwm1\<close>. The drivers are the PWM sink: the model keeps the
  list of the \<^verbatim>\<open>setPWM\<close> calls they have received, \<open>SetPWM b num on off\<close> for the call
  \<^verbatim>\<open>setPWM(num, on, off)\<close> on driver \<open>b\<close> (0 for \<^verbatim>\<open>_pwm0\<close>, 1 for \<^verbatim>\<open>_pwm1\<close>), with the
  arguments as the caller passes them.
\<close>

datatype pwm_call = SetPWM nat int int int

record AdaHat =
  servoMins :: "int list"
  servoMaxs :: "int list"
  servoPoss :: "int list"
  lastUpdated :: "int list"
  pwm :: "pwm_call list"

definition AdaHat_init :: AdaHat where
  "AdaHat_init = \<lparr> servoMins = replicate 32 375, servoMaxs = replicate 32 375,
                   servoPoss = replicate 32 (- 1), lastUpdated = replicate 32 0, pwm = [] \<rparr>"

definition AdaHat_setupServo :: "int \<Rightarrow> int \<Rightarrow> int \<Rightarrow> AdaHat \<Rightarrow> error + AdaHat" where
  "AdaHat_setupServo position minimum maximum h =
     (if position = - 1 then Inr h
      else bnd (wr (servoMins h) position minimum) (\<lambda>mins.
           bnd (wr (servoMaxs h) position maximum) (\<lambda>maxs.
           Inr (h\<lparr>servoMins := mins, servoMaxs := maxs\<rparr>))))"

text \<open>
  \<^verbatim>\<open>
  void AdaHat::setServoDegrees(int position, int degrees) {
    int currentMin = _servoMins[position];
    int currentMax = _servoMaxs[position];
    _servoPoss[position] = degrees; // setting last position
    _lastUpdated[position] = millis();
    int pulseLength = map(degrees, 0, 180, currentMin, currentMax);
    if (position < 16) { _pwm0.setPWM(position, 0, pulseLength); }
    if (position >= 16) { _pwm1.setPWM(position-16, 0, pulseLength); }
  }
  \<close>
  The argument \<open>now\<close> is the value \<^verbatim>\<open>millis()\<close> returns.
\<close>

definition AdaHat_setServoDegrees :: "int \<Rightarrow> int \<Rightarrow> int \<Rightarrow> AdaHat \<Rightarrow> error + AdaHat" where
  "AdaHat_setServoDegrees position degrees now h =
     bnd (rd (servoMins h) position) (\<lambda>currentMin.
     bnd (rd (servoMaxs h) position) (\<lambda>currentMax.
     bnd (wr (servoPoss h) position degrees) (\<lambda>poss.
     bnd (wr (lastUpdated h) position now) (\<lambda>upd.
     bnd (map_arduino degrees 0 180 currentMin currentMax) (\<lambda>r.
       let pulseLength = int16 r;
           h1 = h\<lparr>servoPoss := poss, lastUpdated := upd\<rparr>;
           h2 = (if position < 16 then h1\<lparr>pwm := pwm h1 @ [SetPWM 0 position 0 pulseLength]\<rparr>
                 else h1);
           h3 = (if position \<ge> 16
                 then h2\<lparr>pwm := pwm h2 @ [SetPWM 1 (int16 (position - 16)) 0 pulseLength]\<rparr>
                 else h2)
       in Inr h3)))))"

definition AdaHat_getServoDegrees :: "int \<Rightarrow> AdaHat \<Rightarrow> error + int" where
  "AdaHat_getServoDegrees position h = rd (servoPoss h) position"

text \<open>
  \<^verbatim>\<open>
  void AdaHat::turnOffIdleServos() {
    for (int pin = 0; pin < 16; pin++) {
      if (millis() > _lastUpdated[pin] + 5000) {
        // turn off pin
        if (pin < 16) { _pwm0.setPWM(pin, 0, 4096); }
        if (pin >= 16) { _pwm1.setPWM(pin-16, 0, 4096); }
      }
    }
  }
  \<close>
  The sum \<^verbatim>\<open>_lastUpdated[pin] + 5000\<close> is an \<^verbatim>\<open>unsigned long\<close> and wraps at \<open>2 ^ 32\<close>;
  \<open>now\<close> is the value \<^verbatim>\<open>millis()\<close> returns, the same for the 16 rounds of one sweep.
\<close>

function idle_loop :: "int \<Rightarrow> int \<Rightarrow> AdaHat \<Rightarrow> error + AdaHat" where
  "idle_loop pin now h =
     (if pin < 16 then
        (case rd (lastUpdated h) pin of
           Inl e \<Rightarrow> Inl e
         | Inr t \<Rightarrow>
             idle_loop (pin + 1) now
               (if now > uint32 (t + 5000) then
                  (let h1 = (if pin < 16 then h\<lparr>pwm := pwm h @ [SetPWM 0 pin 0 4096]\<rparr> else h)
                   in (if pin \<ge> 16 then h1\<lparr>pwm := pwm h1 @ [SetPWM 1 (pin - 16) 0 4096]\<rparr>
                       else h1))
                else h))
      else Inr h)"
  by pat_completeness auto
termination
  by (relation "measure (\<lambda>(pin, now, h). nat (16 - pin))") auto

declare idle_loop.simps [simp del]

definition AdaHat_turnOffIdleServos :: "int \<Rightarrow> AdaHat \<Rightarrow> error + AdaHat" where
  "AdaHat_turnOffIdleServos now h = idle_loop 0 now h"

subsection \<open>The sketch: configuration\<close>

text \<open>The \<^verbatim>\<open>#define\<close>s of \<^verbatim>\<open>UART_InMoov.ino\<close>, expanded where they are used, as the preprocessor does.\<close>

abbreviation (input) SERVO_HEAD_TWIST_MIN :: int where "SERVO_HEAD_TWIST_MIN \<equiv> 180"
abbreviation (input) SERVO_HEAD_TWIST_MAX :: int where "SERVO_HEAD_TWIST_MAX \<equiv> 580"
abbreviation (input) SERVO_HEAD_VERT_MIN :: int where "SERVO_HEAD_VERT_MIN \<equiv> 140"
abbreviation (input) SERVO_HEAD_VERT_MAX :: int where "SERVO_HEAD_VERT_MAX \<equiv> 550"
abbreviation (input) SERVO_HEAD_MOUTH_MIN :: int where "SERVO_HEAD_MOUTH_MIN \<equiv> 135"
abbreviation (input) SERVO_HEAD_MOUTH_MAX :: int where "SERVO_HEAD_MOUTH_MAX \<equiv> 550"
abbreviation (input) SERVO_RIGHT_BICEP_TWIST_MIN :: int where "SERVO_RIGHT_BICEP_TWIST_MIN \<equiv> 180"
abbreviation (input) SERVO_RIGHT_BICEP_TWIST_MAX :: int where "SERVO_RIGHT_BICEP_TWIST_MAX \<equiv> 580"
abbreviation (input) SERVO_UNCALIBRATED_DEFAULT_MIN :: int where "SERVO_UNCALIBRATED_DEFAULT_MIN \<equiv> 150"
abbreviation (input) SERVO_UNCALIBRATED_DEFAULT_MAX :: int where "SERVO_UNCALIBRATED_DEFAULT_MAX \<equiv> 600"

abbreviation (input) PIN_HEAD_TWIST :: int where "PIN_HEAD_TWIST \<equiv> 0"
abbreviation (input) PIN_HEAD_MOUTH :: int where "PIN_HEAD_MOUTH \<equiv> 1"
abbreviation (input) PIN_HEAD_VERT :: int where "PIN_HEAD_VERT \<equiv> 8"
abbreviation (input) PIN_RIGHT_BICEP_TWIST :: int where "PIN_RIGHT_BICEP_TWIST \<equiv> 2"
abbreviation (input) PIN_RIGHT_THUMB :: int where "PIN_RIGHT_THUMB \<equiv> 3"
abbreviation (input) PIN_RIGHT_INDEX :: int where "PIN_RIGHT_INDEX \<equiv> 4"
abbreviation (input) PIN_RIGHT_MIDDLE :: int where "PIN_RIGHT_MIDDLE \<equiv> 5"
abbreviation (input) PIN_RIGHT_RING :: int where "PIN_RIGHT_RING \<equiv> 6"
abbreviation (input) PIN_RIGHT_PINKY :: int where "PIN_RIGHT_PINKY \<equiv> 7"
abbreviation (input) PIN_RIGHT_WRIST :: int where "PIN_RIGHT_WRIST \<equiv> 9"
abbreviation (input) PIN_INVERT :: int where "PIN_INVERT \<equiv> PIN_RIGHT_MIDDLE"
abbreviation (input) PIN_LEFT_THUMB :: int where "PIN_LEFT_THUMB \<equiv> 15"
abbreviation (input) PIN_LEFT_INDEX :: int where "PIN_LEFT_INDEX \<equiv> 16"
abbreviation (input) PIN_LEFT_MIDDLE :: int where "PIN_LEFT_MIDDLE \<equiv> 17"
abbreviation (input) PIN_LEFT_RING :: int where "PIN_LEFT_RING \<equiv> 18"
abbreviation (input) PIN_LEFT_PINKY :: int where "PIN_LEFT_PINKY \<equiv> 19"
abbreviation (input) PIN_LEFT_WRIST :: int where "PIN_LEFT_WRIST \<equiv> 20"

abbreviation (input) HEAD_TWIST_MIN :: int where "HEAD_TWIST_MIN \<equiv> 40"
abbreviation (input) HEAD_TWIST_MAX :: int where "HEAD_TWIST_MAX \<equiv> 100"
abbreviation (input) HEAD_VERT_MIN :: int where "HEAD_VERT_MIN \<equiv> 20"
abbreviation (input) HEAD_VERT_MAX :: int where "HEAD_VERT_MAX \<equiv> 90"
abbreviation (input) HEAD_MOUTH_MIN :: int where "HEAD_MOUTH_MIN \<equiv> 45"
abbreviation (input) HEAD_MOUTH_MAX :: int where "HEAD_MOUTH_MAX \<equiv> 90"
abbreviation (input) RIGHT_BICEP_TWIST_MIN :: int where "RIGHT_BICEP_TWIST_MIN \<equiv> 45"
abbreviation (input) RIGHT_BICEP_TWIST_MAX :: int where "RIGHT_BICEP_TWIST_MAX \<equiv> 120"
abbreviation (input) RIGHT_THUMB_MIN :: int where "RIGHT_THUMB_MIN \<equiv> 10"
abbreviation (input) RIGHT_THUMB_MAX :: int where "RIGHT_THUMB_MAX \<equiv> 100"
abbreviation (input) RIGHT_INDEX_MIN :: int where "RIGHT_INDEX_MIN \<equiv> 0"
abbreviation (input) RIGHT_INDEX_MAX :: int where "RIGHT_INDEX_MAX \<equiv> 80"
abbreviation (input) RIGHT_MIDDLE_MIN :: int where "RIGHT_MIDDLE_MIN \<equiv> 40"
abbreviation (input) RIGHT_MIDDLE_MAX :: int where "RIGHT_MIDDLE_MAX \<equiv> 140"
abbreviation (input) RIGHT_RING_MIN :: int where "RIGHT_RING_MIN \<equiv> 20"
abbreviation (input) RIGHT_RING_MAX :: int where "RIGHT_RING_MAX \<equiv> 165"
abbreviation (input) RIGHT_PINKY_MIN :: int where "RIGHT_PINKY_MIN \<equiv> 45"
abbreviation (input) RIGHT_PINKY_MAX :: int where "RIGHT_PINKY_MAX \<equiv> 165"
abbreviation (input) RIGHT_WRIST_MIN :: int where "RIGHT_WRIST_MIN \<equiv> 40"
abbreviation (input) RIGHT_WRIST_MAX :: int where "RIGHT_WRIST_MAX \<equiv> 120"
abbreviation (input) LEFT_THUMB_MIN :: int where "LEFT_THUMB_MIN \<equiv> 10"
abbreviation (input) LEFT_THUMB_MAX :: int where "LEFT_THUMB_MAX \<equiv> 100"
abbreviation (input) LEFT_INDEX_MIN :: int where "LEFT_INDEX_MIN \<equiv> 0"
abbreviation (input) LEFT_INDEX_MAX :: int where "LEFT_INDEX_MAX \<equiv> 80"
abbreviation (input) LEFT_MIDDLE_MIN :: int where "LEFT_MIDDLE_MIN \<equiv> 40"
abbreviation (input) LEFT_MIDDLE_MAX :: int where "LEFT_MIDDLE_MAX \<equiv> 140"
abbreviation (input) LEFT_RING_MIN :: int where "LEFT_RING_MIN \<equiv> 20"
abbreviation (input) LEFT_RING_MAX :: int where "LEFT_RING_MAX \<equiv> 165"
abbreviation (input) LEFT_PINKY_MIN :: int where "LEFT_PINKY_MIN \<equiv> 45"
abbreviation (input) LEFT_PINKY_MAX :: int where "LEFT_PINKY_MAX \<equiv> 165"
abbreviation (input) LEFT_WRIST_MIN :: int where "LEFT_WRIST_MIN \<equiv> 40"
abbreviation (input) LEFT_WRIST_MAX :: int where "LEFT_WRIST_MAX \<equiv> 120"

text \<open>
  \<open>getControlPin\<close>: the chain of \<^verbatim>\<open>strcmp\<close> tests, in the order of the source; \<open>servo\<close>
  is the content of the C string. The entry for \<^verbatim>\<open>LB\<close> is commented out in the source.
\<close>

definition getControlPin :: "string \<Rightarrow> int" where
  "getControlPin servo =
     (if servo = ''HH'' then PIN_HEAD_TWIST
      else if servo = ''HV'' then PIN_HEAD_VERT
      else if servo = ''HM'' then PIN_HEAD_MOUTH
      else if servo = ''RB'' then PIN_RIGHT_BICEP_TWIST
      else if servo = ''RT'' then PIN_RIGHT_THUMB
      else if servo = ''RI'' then PIN_RIGHT_INDEX
      else if servo = ''RM'' then PIN_RIGHT_MIDDLE
      else if servo = ''RR'' then PIN_RIGHT_RING
      else if servo = ''RP'' then PIN_RIGHT_PINKY
      else if servo = ''RW'' then PIN_RIGHT_WRIST
      else if servo = ''LT'' then PIN_LEFT_THUMB
      else if servo = ''LI'' then PIN_LEFT_INDEX
      else if servo = ''LM'' then PIN_LEFT_MIDDLE
      else if servo = ''LR'' then PIN_LEFT_RING
      else if servo = ''LP'' then PIN_LEFT_PINKY
      else if servo = ''LW'' then PIN_LEFT_WRIST
      else - 1)"

definition getServoMin :: "int \<Rightarrow> int" where
  "getServoMin servoPin =
     (if servoPin = PIN_HEAD_TWIST then HEAD_TWIST_MIN
      else if servoPin = PIN_HEAD_MOUTH then HEAD_MOUTH_MIN
      else if servoPin = PIN_HEAD_VERT then HEAD_VERT_MIN
      else if servoPin = PIN_RIGHT_BICEP_TWIST then RIGHT_BICEP_TWIST_MIN
      else if servoPin = PIN_RIGHT_THUMB then RIGHT_THUMB_MIN
      else if servoPin = PIN_RIGHT_INDEX then RIGHT_INDEX_MIN
      else if servoPin = PIN_RIGHT_MIDDLE then RIGHT_MIDDLE_MIN
      else if servoPin = PIN_RIGHT_RING then RIGHT_RING_MIN
      else if servoPin = PIN_RIGHT_PINKY then RIGHT_PINKY_MIN
      else if servoPin = PIN_RIGHT_WRIST then RIGHT_WRIST_MIN
      else if servoPin = PIN_LEFT_THUMB then LEFT_THUMB_MIN
      else if servoPin = PIN_LEFT_INDEX then LEFT_INDEX_MIN
      else if servoPin = PIN_LEFT_MIDDLE then LEFT_MIDDLE_MIN
      else if servoPin = PIN_LEFT_RING then LEFT_RING_MIN
      else if servoPin = PIN_LEFT_PINKY then LEFT_PINKY_MIN
      else if servoPin = PIN_LEFT_WRIST then LEFT_WRIST_MIN
      else 90)"

definition getServoMax :: "int \<Rightarrow> int" where
  "getServoMax servoPin =
     (if servoPin = PIN_HEAD_TWIST then HEAD_TWIST_MAX
      else if servoPin = PIN_HEAD_MOUTH then HEAD_MOUTH_MAX
      else if servoPin = PIN_HEAD_VERT then HEAD_VERT_MAX
      else if servoPin = PIN_RIGHT_BICEP_TWIST then RIGHT_BICEP_TWIST_MAX
      else if servoPin = PIN_RIGHT_THUMB then RIGHT_THUMB_MAX
      else if servoPin = PIN_RIGHT_INDEX then RIGHT_INDEX_MAX
      else if servoPin = PIN_RIGHT_MIDDLE then RIGHT_MIDDLE_MAX
      else if servoPin = PIN_RIGHT_RING then RIGHT_RING_MAX
      else if servoPin = PIN_RIGHT_PINKY then RIGHT_PINKY_MAX
      else if servoPin = PIN_RIGHT_WRIST then RIGHT_WRIST_MAX
      else if servoPin = PIN_LEFT_THUMB then LEFT_THUMB_MAX
      else if servoPin = PIN_LEFT_INDEX then LEFT_INDEX_MAX
      else if servoPin = PIN_LEFT_MIDDLE then LEFT_MIDDLE_MAX
      else if servoPin = PIN_LEFT_RING then LEFT_RING_MAX
      else if servoPin = PIN_LEFT_PINKY then LEFT_PINKY_MAX
      else if servoPin = PIN_LEFT_WRIST then LEFT_WRIST_MAX
      else 90)"

subsection \<open>The sketch: state\<close>

text \<open>
  The globals of the sketch (\<^verbatim>\<open>hat\<close>, \<^verbatim>\<open>commands\<close>, \<^verbatim>\<open>newData\<close>), the static local \<^verbatim>\<open>ndx\<close> of
  \<^verbatim>\<open>recvWithEndMarker\<close>, and its environment: the bytes waiting in the serial receive
  queue (\<open>serial_in\<close>), everything printed so far (\<open>serial_out\<close>) and the reading of the
  millisecond clock (\<open>millis\<close>), which the environment advances.
\<close>

record sketch =
  hat :: AdaHat
  commands :: string
  newData :: bool
  ndx :: nat
  serial_in :: string
  serial_out :: string
  millis :: int

abbreviation (input) numChars :: nat where "numChars \<equiv> 32"
abbreviation (input) NUL :: char where "NUL \<equiv> CHR 0x00"
abbreviation (input) endMarker :: char where "endMarker \<equiv> CHR 0x0A"

definition crlf :: string where
  "crlf = [CHR 0x0D, CHR 0x0A]"

definition Serial_print :: "string \<Rightarrow> sketch \<Rightarrow> sketch" where
  "Serial_print s st = st\<lparr>serial_out := serial_out st @ s\<rparr>"

definition Serial_println :: "string \<Rightarrow> sketch \<Rightarrow> sketch" where
  "Serial_println s st = st\<lparr>serial_out := serial_out st @ s @ crlf\<rparr>"

definition sketch_init :: sketch where
  "sketch_init = \<lparr> hat = AdaHat_init, commands = replicate numChars NUL, newData = False,
                    ndx = 0, serial_in = [], serial_out = [], millis = 0 \<rparr>"

definition hat_setupServo :: "int \<Rightarrow> int \<Rightarrow> int \<Rightarrow> sketch \<Rightarrow> error + sketch" where
  "hat_setupServo position minimum maximum st =
     bnd (AdaHat_setupServo position minimum maximum (hat st)) (\<lambda>h. Inr (st\<lparr>hat := h\<rparr>))"

definition hat_setServoDegrees :: "int \<Rightarrow> int \<Rightarrow> sketch \<Rightarrow> error + sketch" where
  "hat_setServoDegrees position degrees st =
     bnd (AdaHat_setServoDegrees position degrees (millis st) (hat st)) (\<lambda>h. Inr (st\<lparr>hat := h\<rparr>))"

definition hat_getServoDegrees :: "int \<Rightarrow> sketch \<Rightarrow> error + int" where
  "hat_getServoDegrees position st = AdaHat_getServoDegrees position (hat st)"

text \<open>
  The function \<^verbatim>\<open>setup()\<close> of the sketch: the banner, then the calibration of the ten servos
  of the head and the right arm (the left arm is a \<^verbatim>\<open>TODO\<close> in the source).
  \<^verbatim>\<open>hat.setup()\<close> creates the two drivers and sets their frequency; it makes no
  \<^verbatim>\<open>setPWM\<close> call and touches none of the arrays.
\<close>

definition sketch_setup :: "sketch \<Rightarrow> error + sketch" where
  "sketch_setup st =
     bnd (hat_setupServo PIN_HEAD_TWIST SERVO_HEAD_TWIST_MIN SERVO_HEAD_TWIST_MAX
            (Serial_println ''M:InMoov Arduino Online'' st)) (\<lambda>st.
     bnd (hat_setupServo PIN_HEAD_VERT SERVO_HEAD_VERT_MIN SERVO_HEAD_VERT_MAX st) (\<lambda>st.
     bnd (hat_setupServo PIN_HEAD_MOUTH SERVO_HEAD_MOUTH_MIN SERVO_HEAD_MOUTH_MAX st) (\<lambda>st.
     bnd (hat_setupServo PIN_RIGHT_BICEP_TWIST SERVO_RIGHT_BICEP_TWIST_MIN SERVO_RIGHT_BICEP_TWIST_MAX st) (\<lambda>st.
     bnd (hat_setupServo PIN_RIGHT_THUMB SERVO_UNCALIBRATED_DEFAULT_MIN SERVO_UNCALIBRATED_DEFAULT_MAX st) (\<lambda>st.
     bnd (hat_setupServo PIN_RIGHT_INDEX SERVO_UNCALIBRATED_DEFAULT_MIN SERVO_UNCALIBRATED_DEFAULT_MAX st) (\<lambda>st.
     bnd (hat_setupServo PIN_RIGHT_MIDDLE SERVO_UNCALIBRATED_DEFAULT_MIN SERVO_UNCALIBRATED_DEFAULT_MAX st) (\<lambda>st.
     bnd (hat_setupServo PIN_RIGHT_RING SERVO_UNCALIBRATED_DEFAULT_MIN SERVO_UNCALIBRATED_DEFAULT_MAX st) (\<lambda>st.
     bnd (hat_setupServo PIN_RIGHT_PINKY SERVO_UNCALIBRATED_DEFAULT_MIN SERVO_UNCALIBRATED_DEFAULT_MAX st) (\<lambda>st.
          hat_setupServo PIN_RIGHT_WRIST SERVO_UNCALIBRATED_DEFAULT_MIN SERVO_UNCALIBRATED_DEFAULT_MAX st)))))))))"

subsection \<open>The sketch: receiving a line\<close>

text \<open>
  \<^verbatim>\<open>
  void recvWithEndMarker() {
    static byte ndx = 0;
    char endMarker = '\n';
    char rc;
    while (Serial.available() > 0 && newData == false) {
      rc = Serial.read();
      if (rc != endMarker) {
        commands[ndx] = rc;
        ndx++;
        if (ndx >= numChars) { ndx = numChars - 1; }
      } else {
        commands[ndx] = '\0'; // terminate the string
        ndx = 0;
        newData = true;
      }
    }
  }
  \<close>
  \<^verbatim>\<open>ndx\<close> is a \<^verbatim>\<open>byte\<close>: the increment is taken modulo 256.
\<close>

function recvWithEndMarker :: "sketch \<Rightarrow> error + sketch" where
  "recvWithEndMarker st =
     (case serial_in st of
        [] \<Rightarrow> Inr st
      | rc # queue \<Rightarrow>
          if newData st = False then
            if rc \<noteq> endMarker then
              (case wr (commands st) (int (ndx st)) rc of
                 Inl e \<Rightarrow> Inl e
               | Inr buf \<Rightarrow>
                   recvWithEndMarker
                     (st\<lparr>serial_in := queue, commands := buf,
                         ndx := (if (ndx st + 1) mod 256 \<ge> numChars then numChars - 1
                                 else (ndx st + 1) mod 256)\<rparr>))
            else
              (case wr (commands st) (int (ndx st)) NUL of
                 Inl e \<Rightarrow> Inl e
               | Inr buf \<Rightarrow>
                   recvWithEndMarker
                     (st\<lparr>serial_in := queue, commands := buf, ndx := 0, newData := True\<rparr>))
          else Inr st)"
  by pat_completeness auto
termination
  by (relation "measure (\<lambda>st. length (serial_in st))") auto

declare recvWithEndMarker.simps [simp del]

subsection \<open>The C library functions the parser calls\<close>

text \<open>
  A C string is modelled by its content, the characters before the terminating NUL.
  \<open>cstring buf\<close> reads the string that starts at the beginning of the array \<open>buf\<close>; without
  a NUL in the array the read runs past its end.
\<close>

definition cstring :: "string \<Rightarrow> error + string" where
  "cstring buf = (if NUL \<in> set buf then Inr (takeWhile (\<lambda>c. c \<noteq> NUL) buf)
                  else Inl (IndexOutOfBounds (int (length buf))))"

text \<open>
  \<^verbatim>\<open>strtok\<close>: skip the leading delimiters; at the end of the string there is no token
  (\<^verbatim>\<open>NULL\<close>); otherwise the token runs up to the next delimiter, and the scan resumes after
  that delimiter. The result is the token and the rest of the string the next call
  \<^verbatim>\<open>strtok(NULL, ...)\<close> scans.
\<close>

definition strtok :: "string \<Rightarrow> string \<Rightarrow> (string \<times> string) option" where
  "strtok s delim =
     (let s1 = dropWhile (\<lambda>c. c \<in> set delim) s in
      if s1 = [] then None
      else Some (takeWhile (\<lambda>c. c \<notin> set delim) s1, drop 1 (dropWhile (\<lambda>c. c \<notin> set delim) s1)))"

text \<open>\<^verbatim>\<open>strpbrk\<close>: the string from its first character in \<open>accept\<close> on, or \<^verbatim>\<open>NULL\<close>.\<close>

fun strpbrk :: "string \<Rightarrow> string \<Rightarrow> string option" where
  "strpbrk [] accept = None"
| "strpbrk (c # cs) accept = (if c \<in> set accept then Some (c # cs) else strpbrk cs accept)"

text \<open>
  \<^verbatim>\<open>atol\<close>: leading white space, an optional sign, then the decimal digits up to the first
  character that is not a digit; the result is a \<^verbatim>\<open>long\<close>.
\<close>

definition isspace :: "char \<Rightarrow> bool" where
  "isspace c = (c \<in> set [CHR '' '', CHR 0x09, CHR 0x0A, CHR 0x0B, CHR 0x0C, CHR 0x0D])"

definition isdigit :: "char \<Rightarrow> bool" where
  "isdigit c = (c \<in> set ''0123456789'')"

fun atol_digits :: "int \<Rightarrow> string \<Rightarrow> int" where
  "atol_digits acc [] = acc"
| "atol_digits acc (c # cs) =
     (if isdigit c then atol_digits (acc * 10 + (of_char c - 48)) cs else acc)"

definition atol :: "string \<Rightarrow> int" where
  "atol s =
     (case dropWhile isspace s of
        [] \<Rightarrow> 0
      | c # cs \<Rightarrow>
          if c = CHR ''-'' then int32 (- atol_digits 0 cs)
          else if c = CHR ''+'' then int32 (atol_digits 0 cs)
          else int32 (atol_digits 0 (c # cs)))"

text \<open>\<^verbatim>\<open>Serial.print(value, DEC)\<close> for a \<^verbatim>\<open>long\<close>: the decimal digits, after a minus sign if negative.\<close>

function dec_nat :: "nat \<Rightarrow> string" where
  "dec_nat n = (if n < 10 then [char_of (48 + n)] else dec_nat (n div 10) @ [char_of (48 + n mod 10)])"
  by pat_completeness auto
termination
  by (relation "measure (\<lambda>n. n)") auto

declare dec_nat.simps [simp del]

definition print_long :: "int \<Rightarrow> string" where
  "print_long v = (if v < 0 then CHR ''-'' # dec_nat (nat (- v)) else dec_nat (nat v))"

subsection \<open>The sketch: dispatching a command\<close>

text \<open>
  \<^verbatim>\<open>
  void sendCommand(char servo[], int value, bool relative) {
    int control_pin = getControlPin(servo);
    if (control_pin > -1) {
      int servo_min = getServoMin(control_pin);
      int servo_max = getServoMax(control_pin);
      // middle servo is inverted, where normal max would close, not open
      if (control_pin == PIN_INVERT) { value = 100-value; }
      if (!relative) {
        hat.setServoDegrees(control_pin, getCalculatedDegreesFromPercentage(value, servo_min, servo_max));
      } else {
        if (hat.getServoDegrees(control_pin) == -1) { // has not been set before, relative will be from center
          hat.setServoDegrees(control_pin, getCalculatedDegreesFromPercentage(50, servo_min, servo_max));
        }
        hat.setServoDegrees(control_pin, getCalculatedRelativeDegrees(value, servo_min, servo_max, hat.getServoDegrees(control_pin)));
      }
    } else {
      Serial.print("E100: Unsupported Servo: ");
      Serial.println(servo);
    }
  }
  \<close>
\<close>

definition sendCommand :: "string \<Rightarrow> int \<Rightarrow> bool \<Rightarrow> sketch \<Rightarrow> error + sketch" where
  "sendCommand servo value relative st =
     (let control_pin = getControlPin servo in
      if control_pin > - 1 then
        (let servo_min = getServoMin control_pin;
             servo_max = getServoMax control_pin;
             value1 = (if control_pin = PIN_INVERT then int16 (100 - value) else value)
         in if \<not> relative then
              bnd (getCalculatedDegreesFromPercentage value1 servo_min servo_max) (\<lambda>d.
                hat_setServoDegrees control_pin d st)
            else
              bnd (hat_getServoDegrees control_pin st) (\<lambda>cur.
              bnd (if cur = - 1 then
                     bnd (getCalculatedDegreesFromPercentage 50 servo_min servo_max) (\<lambda>d.
                       hat_setServoDegrees control_pin d st)
                   else Inr st) (\<lambda>st1.
              bnd (hat_getServoDegrees control_pin st1) (\<lambda>current.
              bnd (getCalculatedRelativeDegrees value1 servo_min servo_max current) (\<lambda>d.
                hat_setServoDegrees control_pin d st1)))))
      else Inr (Serial_println servo (Serial_print ''E100: Unsupported Servo: '' st)))"

text \<open>
  \<^verbatim>\<open>
  void setDefaultPositions() {
    int pinAmount = 10;
    int pins[pinAmount] = { PIN_HEAD_TWIST, PIN_HEAD_VERT, PIN_HEAD_MOUTH, PIN_RIGHT_BICEP_TWIST,
      PIN_RIGHT_THUMB, PIN_RIGHT_INDEX, PIN_RIGHT_MIDDLE, PIN_RIGHT_RING, PIN_RIGHT_PINKY,
      PIN_RIGHT_WRIST }; // TODO: Include left when ready
    for (int i = 0; i < sizeof(pins) -1; i++) {
      int servo_min = getServoMin(pins[i]);
      int servo_max = getServoMax(pins[i]);
      hat.setServoDegrees(pins[i], getCalculatedDegreesFromPercentage(50, servo_min, servo_max));
    }
  }
  \<close>
  \<^verbatim>\<open>sizeof(pins)\<close> is the size of the array in bytes, \<open>pinAmount * sizeof(int)\<close>.
\<close>

definition pinAmount :: int where
  "pinAmount = 10"

definition pins :: "int list" where
  "pins = [PIN_HEAD_TWIST, PIN_HEAD_VERT, PIN_HEAD_MOUTH, PIN_RIGHT_BICEP_TWIST, PIN_RIGHT_THUMB,
           PIN_RIGHT_INDEX, PIN_RIGHT_MIDDLE, PIN_RIGHT_RING, PIN_RIGHT_PINKY, PIN_RIGHT_WRIST]"

definition sizeof_int :: int where
  "sizeof_int = 2"

definition sizeof_pins :: int where
  "sizeof_pins = pinAmount * sizeof_int"

function defaultPositions_loop :: "int \<Rightarrow> sketch \<Rightarrow> error + sketch" where
  "defaultPositions_loop i st =
     (if i < sizeof_pins - 1 then
        (case rd pins i of
           Inl e \<Rightarrow> Inl e
         | Inr pin \<Rightarrow>
             (case getCalculatedDegreesFromPercentage 50 (getServoMin pin) (getServoMax pin) of
                Inl e \<Rightarrow> Inl e
              | Inr d \<Rightarrow>
                  (case hat_setServoDegrees pin d st of
                     Inl e \<Rightarrow> Inl e
                   | Inr st1 \<Rightarrow> defaultPositions_loop (i + 1) st1)))
      else Inr st)"
  by pat_completeness auto
termination
  by (relation "measure (\<lambda>(i, st). nat (sizeof_pins - 1 - i))") auto

declare defaultPositions_loop.simps [simp del]

definition setDefaultPositions :: "sketch \<Rightarrow> error + sketch" where
  "setDefaultPositions st = defaultPositions_loop 0 st"

subsection \<open>The sketch: parsing a line\<close>

text \<open>
  The body of the \<^verbatim>\<open>while\<close> loop of \<^verbatim>\<open>processCommands\<close>, for the token \<open>command\<close>:
  \<^verbatim>\<open>
  char servo[3];
  servo[0] = command[0]; servo[1] = command[1]; servo[2] = '\0';
  char* value_str = strpbrk(command, "+-1234567890");
  bool relative = false;
  long value = 0;
  if (value_str[0] == '+' || value_str[0] == '-') { relative = true; }
  value = atol(value_str);
  Serial.print("M:Received command - "); Serial.print(servo);
  if (relative == true) { Serial.print(" relative"); }
  Serial.print(" value "); Serial.print(value, DEC); Serial.println("%");
  if (strcmp(servo,"DP") == 0) { setDefaultPositions(); }
  else { sendCommand(servo, value, relative); }
  \<close>
  The source does not test \<^verbatim>\<open>value_str\<close> before it reads \<^verbatim>\<open>value_str[0]\<close>: when
  \<^verbatim>\<open>strpbrk\<close> returns \<^verbatim>\<open>NULL\<close> this is a null pointer dereference. The \<^verbatim>\<open>long\<close> value is
  converted to the \<^verbatim>\<open>int\<close> parameter of \<^verbatim>\<open>sendCommand\<close>.
\<close>

definition processCommand :: "string \<Rightarrow> sketch \<Rightarrow> error + sketch" where
  "processCommand command st =
     (let servo = take 2 command in
      case strpbrk command ''+-1234567890'' of
        None \<Rightarrow> Inl NullPointerDereference
      | Some value_str \<Rightarrow>
          (let relative = (take 1 value_str = ''+'' \<or> take 1 value_str = ''-'');
               value = atol value_str;
               st1 = Serial_print ''M:Received command - '' st;
               st2 = Serial_print servo st1;
               st3 = (if relative then Serial_print '' relative'' st2 else st2);
               st4 = Serial_print '' value '' st3;
               st5 = Serial_print (print_long value) st4;
               st6 = Serial_println ''%'' st5
           in if servo = ''DP'' then setDefaultPositions st6
              else sendCommand servo (int16 value) relative st6))"

text \<open>
  \<^verbatim>\<open>
  void processCommands() {
    if (newData == true) {
      Serial.print("C:");
      Serial.println(commands);
      char* command = strtok(commands," \n");
      while (command != NULL) {
        ...
        command = strtok(NULL, " ");
      }
      newData = false;
    }
  }
  \<close>
  The loop carries the current token and the rest of the line that \<^verbatim>\<open>strtok\<close> has still
  to scan. (\<^verbatim>\<open>strtok\<close> also overwrites the delimiters in \<^verbatim>\<open>commands\<close> with NUL; nothing
  reads the buffer again before the next line is written over it from index 0.)
\<close>

function command_loop :: "(string \<times> string) option \<Rightarrow> sketch \<Rightarrow> error + sketch" where
  "command_loop None st = Inr st"
| "command_loop (Some (command, rest)) st =
     (case processCommand command st of
        Inl e \<Rightarrow> Inl e
      | Inr st1 \<Rightarrow> command_loop (strtok rest '' '') st1)"
  by pat_completeness auto
termination
proof (relation "measure (\<lambda>(c, st). case c of None \<Rightarrow> 0 | Some (command, rest) \<Rightarrow> Suc (length rest))")
  show "wf (measure (\<lambda>(c, st). case c of None \<Rightarrow> 0 | Some (command, rest) \<Rightarrow> Suc (length rest)))"
    by simp
next
  fix command rest :: string and st x2 :: sketch
  have "length (dropWhile (\<lambda>c. c \<in> set '' '') rest) \<le> length rest"
    by (rule length_dropWhile_le)
  moreover have "length (dropWhile (\<lambda>c. c \<notin> set '' '') (dropWhile (\<lambda>c. c \<in> set '' '') rest))
                 \<le> length (dropWhile (\<lambda>c. c \<in> set '' '') rest)"
    by (rule length_dropWhile_le)
  ultimately have "length (dropWhile (\<lambda>c. c \<notin> set '' '') (dropWhile (\<lambda>c. c \<in> set '' '') rest)) - 1
                   < length rest" if "rest \<noteq> []"
    using that by (cases rest) simp_all
  then show "((strtok rest '' '', x2), Some (command, rest), st)
        \<in> measure (\<lambda>(c, st). case c of None \<Rightarrow> 0 | Some (command, rest) \<Rightarrow> Suc (length rest))"
    by (cases rest) (auto simp: strtok_def Let_def split: option.splits)
qed

definition processCommands :: "sketch \<Rightarrow> error + sketch" where
  "processCommands st =
     (if newData st = True then
        bnd (cstring (commands st)) (\<lambda>line.
        bnd (command_loop (strtok line [CHR '' '', CHR 0x0A])
               (Serial_println line (Serial_print ''C:'' st))) (\<lambda>st1.
          Inr (st1\<lparr>newData := False\<rparr>)))
      else Inr st)"

subsection \<open>The sketch: the main loop\<close>

definition turnOffIdleServos :: "sketch \<Rightarrow> error + sketch" where
  "turnOffIdleServos st =
     bnd (AdaHat_turnOffIdleServos (millis st) (hat st)) (\<lambda>h. Inr (st\<lparr>hat := h\<rparr>))"

definition loop :: "sketch \<Rightarrow> error + sketch" where
  "loop st = bnd (recvWithEndMarker st) (\<lambda>st1. bnd (processCommands st1) turnOffIdleServos)"

subsection \<open>The environment of the sketch\<close>

text \<open>
  What happens around the sketch: bytes arrive on the serial line, the clock advances, and
  the Arduino runtime calls \<^verbatim>\<open>setup()\<close> once on the initial globals. \<open>process_line\<close>
  delivers one line with its end marker and lets \<open>recvWithEndMarker\<close> and
  \<open>processCommands\<close> run, as one pass of \<^verbatim>\<open>loop()\<close> does before the idle sweep.
\<close>

definition receive :: "string \<Rightarrow> sketch \<Rightarrow> sketch" where
  "receive bytes st = st\<lparr>serial_in := serial_in st @ bytes\<rparr>"

definition at_time :: "int \<Rightarrow> sketch \<Rightarrow> sketch" where
  "at_time now st = st\<lparr>millis := now\<rparr>"

definition startup :: "error + sketch" where
  "startup = sketch_setup sketch_init"

definition process_line :: "string \<Rightarrow> sketch \<Rightarrow> error + sketch" where
  "process_line line st = bnd (recvWithEndMarker (receive (line @ [endMarker]) st)) processCommands"

definition run_line :: "string \<Rightarrow> error + sketch \<Rightarrow> error + sketch" where
  "run_line line r = bnd r (process_line line)"

definition sink_calls :: "error + sketch \<Rightarrow> error + pwm_call list" where
  "sink_calls r = bnd r (\<lambda>st. Inr (pwm (hat st)))"

definition angle_of :: "int \<Rightarrow> error + sketch \<Rightarrow> error + int" where
  "angle_of position r = bnd r (hat_getServoDegrees position)"

definition responses :: "error + sketch \<Rightarrow> error + string" where
  "responses r = bnd r (\<lambda>st. Inr (serial_out st))"

text \<open>
  The transport delivers a byte stream in fragments of any size. \<open>recv_fragments\<close> puts
  one fragment after the other into the receive queue and lets \<open>recvWithEndMarker\<close> run
  after each, as the passes of \<^verbatim>\<open>loop()\<close> do while bytes keep arriving.
\<close>

fun recv_fragments :: "string list \<Rightarrow> sketch \<Rightarrow> error + sketch" where
  "recv_fragments [] st = Inr st"
| "recv_fragments (fragment # fragments) st =
     bnd (recvWithEndMarker (receive fragment st)) (recv_fragments fragments)"

text \<open>
  \<open>stored pre st\<close>: a line is being accumulated, and the bytes \<open>pre\<close> of it that have
  been read so far are in the buffer, as far as they fit: the first 31 of them, with the
  index behind them.
\<close>

definition stored :: "string \<Rightarrow> sketch \<Rightarrow> bool" where
  "stored pre st =
     (length (commands st) = 32 \<and> \<not> newData st \<and> ndx st = min (length pre) 31
      \<and> take (ndx st) (commands st) = take 31 pre)"

subsection \<open>The invariant of the channel registry\<close>

text \<open>
  The invariant of the specification, on the arrays of the \<^verbatim>\<open>AdaHat\<close>: each of the 32
  channels has \<open>minPulse \<le> maxPulse\<close>, and its last angle is the sentinel \<open>- 1\<close> or lies in
  \<open>[0, 180]\<close>. \<open>stamps_le a b\<close>: no channel has an earlier time stamp in \<open>b\<close> than in \<open>a\<close>.
  \<open>invariant_after r\<close>: the run \<open>r\<close> has returned, in a state that satisfies the invariant.
\<close>

definition angle_ok :: "int \<Rightarrow> bool" where
  "angle_ok a = (a = - 1 \<or> (0 \<le> a \<and> a \<le> 180))"

definition hat_inv :: "AdaHat \<Rightarrow> bool" where
  "hat_inv h =
     (length (servoMins h) = 32 \<and> length (servoMaxs h) = 32
      \<and> length (servoPoss h) = 32 \<and> length (lastUpdated h) = 32
      \<and> list_all2 (\<le>) (servoMins h) (servoMaxs h)
      \<and> list_all angle_ok (servoPoss h))"

definition stamps_le :: "sketch \<Rightarrow> sketch \<Rightarrow> bool" where
  "stamps_le a b = list_all2 (\<le>) (lastUpdated (hat a)) (lastUpdated (hat b))"

definition invariant_after :: "error + sketch \<Rightarrow> bool" where
  "invariant_after r = (case r of Inl e \<Rightarrow> False | Inr st \<Rightarrow> hat_inv (hat st))"

section \<open>Arithmetic of the model\<close>

lemma int16_id: "is_int x \<Longrightarrow> int16 x = x"
  by (simp add: int16_def is_int_def)

lemma int32_id: "- 2147483648 \<le> x \<Longrightarrow> x \<le> 2147483647 \<Longrightarrow> int32 x = x"
  by (simp add: int32_def)

lemma sdiv_nonneg: "0 \<le> a \<Longrightarrow> 0 < b \<Longrightarrow> a sdiv b = a div (b::int)"
  by (simp add: signed_divide_int_def sgn_if)

lemma clampPercentage_range: "0 \<le> clampPercentage p \<and> clampPercentage p \<le> 100"
  by (simp add: clampPercentage_def)

lemma scaled_bounds:
  fixes c w :: int
  assumes "0 \<le> c" "c \<le> 100" "0 \<le> w"
  shows "0 \<le> w * c div 100" and "w * c div 100 \<le> w"
proof -
  have "0 \<le> w * c" using assms by simp
  then show "0 \<le> w * c div 100" by simp
  have "w * c \<le> w * 100" using assms by (simp add: mult_left_mono)
  then have "w * c div 100 \<le> w * 100 div 100" by (rule zdiv_mono1) simp
  then show "w * c div 100 \<le> w" by simp
qed

lemma map_arduino_percent:
  assumes "is_int minimum" "is_int maximum" "minimum \<le> maximum" "0 \<le> c" "c \<le> 100"
  shows "map_arduino c 0 100 minimum maximum = Inr (minimum + (maximum - minimum) * c div 100)"
proof -
  let ?w = "maximum - minimum"
  have w: "0 \<le> ?w" "?w \<le> 65535" using assms by (simp_all add: is_int_def)
  have p0: "0 \<le> c * ?w" using assms w by simp
  have "c * ?w \<le> 100 * 65535" using assms w by (intro mult_mono) simp_all
  then have p1: "c * ?w \<le> 6553500" by simp
  have q: "0 \<le> ?w * c div 100" "?w * c div 100 \<le> ?w"
    using scaled_bounds [of c ?w] assms w by simp_all
  have e1: "int32 ?w = ?w" using w by (intro int32_id) simp_all
  have e2: "int32 c = c" using assms by (intro int32_id) simp_all
  have e3: "int32 (c * ?w) = c * ?w" using p0 p1 by (intro int32_id) simp_all
  have e4: "(c * ?w) sdiv 100 = ?w * c div 100"
    using p0 by (simp add: sdiv_nonneg mult.commute)
  have e5: "int32 (?w * c div 100) = ?w * c div 100" using q w by (intro int32_id) simp_all
  have r: "- 32768 \<le> ?w * c div 100 + minimum" "?w * c div 100 + minimum \<le> 32767"
    using q assms by (simp_all add: is_int_def)
  have e6: "int32 (?w * c div 100 + minimum) = ?w * c div 100 + minimum"
    using r by (intro int32_id) simp_all
  show ?thesis
    by (simp add: map_arduino_def int32_def [of "100"] e1 e2 e3 e4 e5 e6 add.commute [of minimum])
qed

lemma fromPercentage_value:
  assumes "is_int minimum" and "is_int maximum" and "minimum \<le> maximum"
  shows "getCalculatedDegreesFromPercentage p minimum maximum
         = Inr (minimum + (maximum - minimum) * clampPercentage p div 100)"
proof -
  let ?c = "clampPercentage p"
  have c: "0 \<le> ?c" "?c \<le> 100" using clampPercentage_range [of p] by simp_all
  have m: "map_arduino ?c 0 100 minimum maximum = Inr (minimum + (maximum - minimum) * ?c div 100)"
    using assms c by (rule map_arduino_percent)
  have q: "0 \<le> (maximum - minimum) * ?c div 100" "(maximum - minimum) * ?c div 100 \<le> maximum - minimum"
    using scaled_bounds [of ?c "maximum - minimum"] c assms by simp_all
  have "is_int (minimum + (maximum - minimum) * ?c div 100)"
    using q assms by (simp add: is_int_def)
  then have i: "int16 (minimum + (maximum - minimum) * ?c div 100)
                = minimum + (maximum - minimum) * ?c div 100"
    by (rule int16_id)
  have cl: "(if (if p > 100 then 100 else p) < 0 then 0 else (if p > 100 then 100 else p)) = ?c"
    by (simp add: clampPercentage_def)
  show ?thesis
    unfolding getCalculatedDegreesFromPercentage_def Let_def cl m
    by (simp add: bnd_def i)
qed

lemma bnd_Inr [simp]: "bnd (Inr x) f = f x"
  by (simp add: bnd_def)

lemma bnd_Inl [simp]: "bnd (Inl e) f = Inl e"
  by (simp add: bnd_def)

section \<open>Properties of the sketch\<close>

subsection \<open>Percentage to angle\<close>

text \<open>
  C6, as amended. For every percentage \<open>p\<close> and bounds \<open>minimum \<le> maximum\<close> (C \<^verbatim>\<open>int\<close>
  values), \<open>getCalculatedDegreesFromPercentage\<close> clamps \<open>p\<close> to \<open>[0, 100]\<close> and returns
  \<open>minimum + (maximum - minimum) * p div 100\<close>, where the division is the truncating
  integer division of \<^verbatim>\<open>map\<close>: the quotient is rounded down, not to the nearest integer.
\<close>

theorem fromPercentage_truncates:
  assumes "is_int minimum" and "is_int maximum" and "minimum \<le> maximum"
  shows "getCalculatedDegreesFromPercentage p minimum maximum
         = Inr (minimum + (maximum - minimum) * clampPercentage p div 100)"
  using assms by (rule fromPercentage_value)

theorem fromPercentage_truncates_witness:
  "is_int 0 \<and> is_int 80 \<and> (0::int) \<le> 80
   \<and> getCalculatedDegreesFromPercentage 1 0 80 = Inr 0"
proof -
  have h: "is_int 0" "is_int 80" "(0::int) \<le> 80" by (simp_all add: is_int_def)
  show ?thesis
    using h fromPercentage_truncates [OF h, of 1] by (simp add: clampPercentage_def)
qed

text \<open>
  C6, as stated, fails: at 1 percent of the range \<open>[0, 80]\<close> the nearest integer to
  \<open>0.8\<close> is 1, and the code returns 0.
\<close>

theorem fromPercentage_not_rounding:
  "getCalculatedDegreesFromPercentage 1 0 80 \<noteq> Inr (fromPercentage_spec 1 0 80)"
proof -
  have s: "fromPercentage_spec 1 0 80 = 1"
    by (simp add: fromPercentage_spec_def clampPercentage_def round_def)
  have "getCalculatedDegreesFromPercentage 1 0 80 = Inr 0"
    by code_simp
  then show ?thesis using s by simp
qed

subsection \<open>The command line \<^verbatim>\<open>HH90\<close>\<close>

text \<open>
  C3, as amended. Processing the command line \<^verbatim>\<open>HH90\<close> after \<^verbatim>\<open>setup()\<close>, which calibrates
  channel \<^verbatim>\<open>HH\<close> (output 0 of the first driver) to the pulse range \<open>[180, 580]\<close>, results in
  exactly one sink call, \<^verbatim>\<open>setPWM(0, 0, 388)\<close>: the value 90 is a percentage of the angle
  range \<open>[40, 100]\<close> of the channel, so the angle is \<open>40 + 60 * 90 div 100 = 94\<close> degrees and
  the pulse is \<open>180 + 400 * 94 div 180 = 388\<close>.
\<close>

theorem HH90_pulse:
  "sink_calls (run_line ''HH90'' startup) = Inr [SetPWM 0 0 0 388]"
  by code_simp

text \<open>C3, as stated, fails: the sink call is not \<^verbatim>\<open>setPWM(0, 0, 380)\<close>.\<close>

theorem HH90_pulse_not_380:
  "sink_calls (run_line ''HH90'' startup) \<noteq> Inr [SetPWM 0 0 0 380]"
  by code_simp

subsection \<open>The idle watchdog\<close>

text \<open>
  What a sweep does, in any state of the 32 channels: for each pin from 0 to 15 whose time
  stamp plus 5000 (modulo \<open>2 ^ 32\<close>) lies before the clock reading, one call
  \<^verbatim>\<open>setPWM(pin, 0, 4096)\<close> on the first driver, in the order of the pins; the arrays are left
  as they are, and the second driver is not called.
\<close>

lemma idle_loop_calls:
  "0 \<le> pin \<Longrightarrow> pin \<le> 16 \<Longrightarrow> length (lastUpdated h) = 32 \<Longrightarrow>
   idle_loop pin now h
   = Inr (h\<lparr>pwm := pwm h @ map (\<lambda>q. SetPWM 0 q 0 4096)
                               (filter (\<lambda>q. now > uint32 (lastUpdated h ! nat q + 5000)) [pin..15])\<rparr>)"
proof (induction pin now h rule: idle_loop.induct)
  case (1 pin now h)
  show ?case
  proof (cases "pin < 16")
    case False
    then have "pin = 16" using "1.prems" by simp
    then show ?thesis by (simp add: idle_loop.simps [of 16])
  next
    case True
    have r: "rd (lastUpdated h) pin = Inr (lastUpdated h ! nat pin)"
      using True "1.prems" by (simp add: rd_def)
    let ?h1 = "(if now > uint32 (lastUpdated h ! nat pin + 5000)
                then h\<lparr>pwm := pwm h @ [SetPWM 0 pin 0 4096]\<rparr> else h)"
    have u: "[pin..15] = pin # [pin + 1..15]"
      using True by (simp add: upto_rec1)
    have s: "idle_loop pin now h = idle_loop (pin + 1) now ?h1"
      using True r by (simp add: idle_loop.simps [of pin] Let_def)
    have "idle_loop (pin + 1) now ?h1
          = Inr (?h1\<lparr>pwm := pwm ?h1 @ map (\<lambda>q. SetPWM 0 q 0 4096)
                  (filter (\<lambda>q. now > uint32 (lastUpdated ?h1 ! nat q + 5000)) [pin + 1..15])\<rparr>)"
      using "1.IH" [OF True r] True "1.prems" by (auto simp: Let_def)
    then show ?thesis unfolding s u by auto
  qed
qed

lemma turnOffIdleServos_calls:
  "length (lastUpdated h) = 32 \<Longrightarrow>
   AdaHat_turnOffIdleServos now h
   = Inr (h\<lparr>pwm := pwm h @ map (\<lambda>q. SetPWM 0 q 0 4096)
                               (filter (\<lambda>q. now > uint32 (lastUpdated h ! nat q + 5000)) [0..15])\<rparr>)"
  unfolding AdaHat_turnOffIdleServos_def by (rule idle_loop_calls) simp_all

text \<open>
  C1 fails on the code for the channels of the second driver. After \<^verbatim>\<open>setup()\<close>, the command
  \<^verbatim>\<open>LI50\<close> at time 1000 sets channel 16 (\<^verbatim>\<open>PIN_LEFT_INDEX\<close>); the idle sweep at time 10000
  finds it 9000 ms old, but the loop of \<open>AdaHat_turnOffIdleServos\<close> stops at pin 15: the
  sink receives the disabling pulse 4096 for the outputs 0 to 15 of the first driver and
  nothing for the second driver.
\<close>

theorem idle_sweep_skips_second_driver:
  "sink_calls (bnd (bnd startup (\<lambda>st. sendCommand ''LI'' 50 False (at_time 1000 st)))
                   (\<lambda>st. turnOffIdleServos (at_time 10000 st)))
   = Inr (SetPWM 1 0 0 375 # map (\<lambda>pin. SetPWM 0 pin 0 4096) [0..15])"
  by code_simp

subsection \<open>The inverted channel\<close>

text \<open>
  C2 fails on the code for relative commands. \<open>sendCommand\<close> replaces the value by
  \<open>100 - value\<close> before it looks at \<open>relative\<close>: the relative command \<^verbatim>\<open>RM+10\<close> on the fresh
  inverted channel (angle range \<open>[40, 140]\<close>, baseline 90 degrees) is carried out with the
  delta 90 and ends at 140 degrees, where the delta 10 ends at 100 degrees.
\<close>

theorem relative_command_is_inverted:
  "angle_of PIN_INVERT (bnd startup (sendCommand ''RM'' 10 True)) = Inr 140
   \<and> getCalculatedRelativeDegrees 90 RIGHT_MIDDLE_MIN RIGHT_MIDDLE_MAX 90 = Inr 140
   \<and> getCalculatedRelativeDegrees 10 RIGHT_MIDDLE_MIN RIGHT_MIDDLE_MAX 90 = Inr 100"
  by code_simp

subsection \<open>Tokens without a value\<close>

text \<open>
  C4 fails on the code. For a token without sign and digit, such as \<^verbatim>\<open>HH\<close>, \<^verbatim>\<open>strpbrk\<close>
  returns \<^verbatim>\<open>NULL\<close> and \<open>processCommand\<close> reads \<^verbatim>\<open>value_str[0]\<close>: there is no fallback
  value, the line ends in a null pointer dereference.
\<close>

theorem token_without_value_dereferences_null:
  "run_line ''HH'' startup = Inl NullPointerDereference"
  by code_simp

subsection \<open>Default positions\<close>

text \<open>
  C7 fails on the code. The line \<^verbatim>\<open>DP0\<close> reaches \<open>setDefaultPositions\<close>, whose loop sets the
  ten listed channels and then goes on to read \<^verbatim>\<open>pins[10]\<close>, past the end of the list.
\<close>

theorem DP_reads_past_the_list:
  "run_line ''DP0'' startup = Inl (IndexOutOfBounds 10)"
  by code_simp

text \<open>
  C10 fails on the code. The list has \<open>pinAmount = 10\<close> entries, but the loop bound is
  \<^verbatim>\<open>sizeof(pins) - 1\<close>, 19 with the size in bytes: the loop condition still holds at
  \<open>i = 10\<close>, and the read of \<^verbatim>\<open>pins[10]\<close> is out of bounds in every state.
\<close>

theorem defaultPositions_loop_bound:
  "int (length pins) = pinAmount \<and> sizeof_pins - 1 = 19
   \<and> defaultPositions_loop pinAmount st = Inl (IndexOutOfBounds 10)"
  by (simp add: defaultPositions_loop.simps [of 10] pinAmount_def sizeof_pins_def sizeof_int_def
      rd_def pins_def)

subsection \<open>Unsupported channel codes\<close>

text \<open>
  What \<open>sendCommand\<close> does with a code that \<open>getControlPin\<close> does not resolve: the state
  is returned unchanged but for one \<^verbatim>\<open>E100\<close> line that carries the code; no field of the
  \<^verbatim>\<open>AdaHat\<close> (angles, time stamps, sink calls) changes.
\<close>

lemma sendCommand_unsupported:
  "getControlPin servo = - 1 \<Longrightarrow>
   sendCommand servo v relative st
     = Inr (st\<lparr>serial_out := serial_out st @ ''E100: Unsupported Servo: '' @ servo @ crlf\<rparr>)"
  by (simp add: sendCommand_def Serial_print_def Serial_println_def)

text \<open>
  With a value field the token is handled as the specification says: the line
  \<^verbatim>\<open>ZZ5 HH90\<close> is answered by the echo, the acknowledgement of \<^verbatim>\<open>ZZ\<close>, one \<^verbatim>\<open>E100\<close> line with
  the code, and the acknowledgement of \<^verbatim>\<open>HH\<close>; the only sink call is the one of \<^verbatim>\<open>HH90\<close>.
\<close>

lemma unsupported_code_with_value:
  "responses (run_line ''ZZ5 HH90'' startup)
     = Inr (''M:InMoov Arduino Online'' @ crlf @ ''C:ZZ5 HH90'' @ crlf
            @ ''M:Received command - ZZ value 5%'' @ crlf
            @ ''E100: Unsupported Servo: ZZ'' @ crlf
            @ ''M:Received command - HH value 90%'' @ crlf)
   \<and> sink_calls (run_line ''ZZ5 HH90'' startup) = Inr [SetPWM 0 0 0 388]"
  by code_simp


subsection \<open>Line accumulation\<close>

lemma recv_empty: "serial_in st = [] \<Longrightarrow> recvWithEndMarker st = Inr st"
  by (simp add: recvWithEndMarker.simps [of st])

lemma recv_ready: "newData st \<Longrightarrow> recvWithEndMarker st = Inr st"
  by (simp add: recvWithEndMarker.simps [of st] split: list.splits)

lemma recv_byte:
  assumes "serial_in st = rc # queue" "\<not> newData st" "rc \<noteq> endMarker"
          "length (commands st) = 32" "ndx st < 32"
  shows "recvWithEndMarker st
         = recvWithEndMarker (st\<lparr>serial_in := queue, commands := (commands st)[ndx st := rc],
                                  ndx := min (ndx st + 1) 31\<rparr>)"
proof -
  have "(if 32 \<le> (ndx st + 1) mod 256 then 32 - 1 else (ndx st + 1) mod 256) = min (ndx st + 1) 31"
    using assms(5) by (simp add: min_def)
  then show ?thesis
    using assms by (simp add: recvWithEndMarker.simps [of st] wr_def)
qed

lemma recv_marker:
  assumes "serial_in st = endMarker # queue" "\<not> newData st"
          "length (commands st) = 32" "ndx st < 32"
  shows "recvWithEndMarker st
         = Inr (st\<lparr>serial_in := queue, commands := (commands st)[ndx st := NUL],
                    ndx := 0, newData := True\<rparr>)"
  using assms by (simp add: recvWithEndMarker.simps [of st] wr_def recv_ready)

lemma recv_in_bounds:
  "length (commands st) = 32 \<Longrightarrow> ndx st < 32 \<Longrightarrow>
   \<exists>st'. recvWithEndMarker st = Inr st' \<and> length (commands st') = 32 \<and> ndx st' < 32"
proof (induction q \<equiv> "serial_in st" arbitrary: st)
  case Nil
  then show ?case by (simp add: recv_empty)
next
  case (Cons rc queue)
  have q: "serial_in st = rc # queue" using Cons.hyps(2) by simp
  show ?case
  proof (cases "newData st")
    case True
    then show ?thesis using Cons.prems by (simp add: recv_ready)
  next
    case False
    show ?thesis
    proof (cases "rc = endMarker")
      case True
      then show ?thesis using q False Cons.prems by (simp add: recv_marker)
    next
      case False
      let ?st1 = "st\<lparr>serial_in := queue, commands := (commands st)[ndx st := rc],
                       ndx := min (ndx st + 1) 31\<rparr>"
      have "\<exists>st'. recvWithEndMarker ?st1 = Inr st' \<and> length (commands st') = 32 \<and> ndx st' < 32"
        using Cons.prems by (intro Cons.hyps(1)) simp_all
      then show ?thesis
        using recv_byte [OF q \<open>\<not> newData st\<close> False Cons.prems] by simp
    qed
  qed
qed

lemma recv_line:
  assumes "length (commands st) = 32" "\<not> newData st"
          "ndx st = min (length pre) 31" "take (ndx st) (commands st) = take 31 pre"
          "serial_in st = line @ endMarker # rest" "endMarker \<notin> set line"
  shows "\<exists>st'. recvWithEndMarker st = Inr st' \<and> newData st' \<and> ndx st' = 0 \<and> serial_in st' = rest
          \<and> length (commands st') = 32
          \<and> take (min (length (pre @ line)) 31) (commands st') = take 31 (pre @ line)
          \<and> commands st' ! min (length (pre @ line)) 31 = NUL"
  using assms
proof (induction line arbitrary: st pre)
  case Nil
  have n: "ndx st < 32" using Nil.prems(3) by simp
  have "recvWithEndMarker st
         = Inr (st\<lparr>serial_in := rest, commands := (commands st)[ndx st := NUL],
                    ndx := 0, newData := True\<rparr>)"
    using Nil.prems n by (intro recv_marker) simp_all
  then show ?case using Nil.prems n by simp
next
  case (Cons c cs)
  have n: "ndx st < 32" using Cons.prems(3) by simp
  let ?st1 = "st\<lparr>serial_in := cs @ endMarker # rest, commands := (commands st)[ndx st := c],
                   ndx := min (ndx st + 1) 31\<rparr>"
  have step: "recvWithEndMarker st = recvWithEndMarker ?st1"
    using Cons.prems n by (intro recv_byte) auto
  have t: "take (ndx ?st1) (commands ?st1) = take 31 (pre @ [c])"
  proof (cases "length pre < 31")
    case True
    then have e: "ndx st = length pre" using Cons.prems(3) by simp
    have "take (Suc (length pre)) ((commands st)[length pre := c])
          = take (length pre) (commands st) @ [c]"
      using True Cons.prems(1) by (simp add: take_Suc_conv_app_nth)
    then show ?thesis using True e Cons.prems(4) by simp
  next
    case False
    then have e: "ndx st = 31" using Cons.prems(3) by simp
    show ?thesis using False e Cons.prems(4) by simp
  qed
  have "\<exists>st'. recvWithEndMarker ?st1 = Inr st' \<and> newData st' \<and> ndx st' = 0 \<and> serial_in st' = rest
          \<and> length (commands st') = 32
          \<and> take (min (length ((pre @ [c]) @ cs)) 31) (commands st') = take 31 ((pre @ [c]) @ cs)
          \<and> commands st' ! min (length ((pre @ [c]) @ cs)) 31 = NUL"
  proof (rule Cons.IH)
    show "length (commands ?st1) = 32" using Cons.prems(1) by simp
    show "\<not> newData ?st1" using Cons.prems(2) by simp
    show "ndx ?st1 = min (length (pre @ [c])) 31" using Cons.prems(3) by simp
    show "take (ndx ?st1) (commands ?st1) = take 31 (pre @ [c])" by (rule t)
    show "serial_in ?st1 = cs @ endMarker # rest" by simp
    show "endMarker \<notin> set cs" using Cons.prems(6) by simp
  qed
  then show ?case using step by simp
qed

lemma cstring_prefix:
  assumes "n < length buf" "buf ! n = NUL" "NUL \<notin> set (take n buf)"
  shows "cstring buf = Inr (take n buf)"
proof -
  have b: "buf = take n buf @ NUL # drop (Suc n) buf"
    using assms(1,2) by (metis id_take_nth_drop)
  have "takeWhile (\<lambda>c. c \<noteq> NUL) (take n buf @ NUL # drop (Suc n) buf) = take n buf"
    using assms(3) by (auto simp add: takeWhile_tail)
  moreover have "NUL \<in> set buf" using assms(1,2) by (metis nth_mem)
  ultimately show ?thesis using b by (simp add: cstring_def del: takeWhile_append)
qed


lemma stored_step:
  assumes "stored pre st" "serial_in st = c # queue" "c \<noteq> endMarker"
  shows "\<exists>st1. recvWithEndMarker st = recvWithEndMarker st1 \<and> stored (pre @ [c]) st1
              \<and> serial_in st1 = queue"
proof -
  have a: "length (commands st) = 32" "\<not> newData st" "ndx st = min (length pre) 31"
          "take (ndx st) (commands st) = take 31 pre"
    using assms(1) by (auto simp: stored_def)
  have n: "ndx st < 32" using a(3) by simp
  let ?st1 = "st\<lparr>serial_in := queue, commands := (commands st)[ndx st := c],
                   ndx := min (ndx st + 1) 31\<rparr>"
  have step: "recvWithEndMarker st = recvWithEndMarker ?st1"
    using assms(2) a(2) assms(3) a(1) n by (rule recv_byte)
  have t: "take (ndx ?st1) (commands ?st1) = take 31 (pre @ [c])"
  proof (cases "length pre < 31")
    case True
    then have e: "ndx st = length pre" using a(3) by simp
    have "take (Suc (length pre)) ((commands st)[length pre := c])
          = take (length pre) (commands st) @ [c]"
      using True a(1) by (simp add: take_Suc_conv_app_nth)
    then show ?thesis using True e a(4) by simp
  next
    case False
    then have e: "ndx st = 31" using a(3) by simp
    show ?thesis using False e a(4) by simp
  qed
  have "stored (pre @ [c]) ?st1"
    unfolding stored_def using a t by simp
  then show ?thesis using step by (intro exI [of _ ?st1]) simp
qed

lemma recv_store:
  assumes "stored pre st" "endMarker \<notin> set (serial_in st)"
  shows "\<exists>st'. recvWithEndMarker st = Inr st' \<and> stored (pre @ serial_in st) st'
              \<and> serial_in st' = []"
  using assms
proof (induction q \<equiv> "serial_in st" arbitrary: st pre)
  case Nil
  then show ?case by (simp add: recv_empty)
next
  case (Cons c queue)
  have q: "serial_in st = c # queue" using Cons.hyps(2) by simp
  have c: "c \<noteq> endMarker" using Cons.prems(2) q by auto
  obtain st1 where st1: "recvWithEndMarker st = recvWithEndMarker st1" "stored (pre @ [c]) st1"
      "serial_in st1 = queue"
    using stored_step [OF Cons.prems(1) q c] by blast
  have "\<exists>st'. recvWithEndMarker st1 = Inr st' \<and> stored ((pre @ [c]) @ serial_in st1) st'
              \<and> serial_in st' = []"
    using st1 Cons.prems(2) q by (intro Cons.hyps(1)) simp_all
  then show ?case using st1 q by simp
qed

lemma frags_store:
  assumes "stored pre st" "endMarker \<notin> set (serial_in st @ concat frags)"
  shows "\<exists>st' pre'. recv_fragments frags st = Inr st' \<and> stored pre' st'
              \<and> pre' @ serial_in st' = pre @ serial_in st @ concat frags
              \<and> endMarker \<notin> set (serial_in st')"
  using assms
proof (induction frags arbitrary: st pre)
  case Nil
  then show ?case by auto
next
  case (Cons f fs)
  have s: "stored pre (receive f st)" using Cons.prems(1) by (auto simp: stored_def receive_def)
  have m: "endMarker \<notin> set (serial_in (receive f st))"
    using Cons.prems(2) by (simp add: receive_def)
  obtain st1 where st1: "recvWithEndMarker (receive f st) = Inr st1"
      "stored (pre @ serial_in (receive f st)) st1" "serial_in st1 = []"
    using recv_store [OF s m] by blast
  have "endMarker \<notin> set (serial_in st1 @ concat fs)"
    using Cons.prems(2) st1(3) by simp
  then obtain st' pre' where r: "recv_fragments fs st1 = Inr st'" "stored pre' st'"
      "pre' @ serial_in st' = (pre @ serial_in (receive f st)) @ serial_in st1 @ concat fs"
      "endMarker \<notin> set (serial_in st')"
    using Cons.IH [OF st1(2)] by blast
  have "recv_fragments (f # fs) st = Inr st'" by (simp add: st1(1) r(1))
  moreover have "pre' @ serial_in st' = pre @ serial_in st @ concat (f # fs)"
    using r(3) st1(3) by (simp add: receive_def)
  ultimately show ?case using r(2,4) by blast
qed

lemma frags_in_bounds:
  "length (commands st) = 32 \<Longrightarrow> ndx st < 32 \<Longrightarrow>
   \<exists>st'. recv_fragments frags st = Inr st' \<and> length (commands st') = 32 \<and> ndx st' < 32"
proof (induction frags arbitrary: st)
  case Nil
  then show ?case by simp
next
  case (Cons f fs)
  obtain st1 where st1: "recvWithEndMarker (receive f st) = Inr st1"
      "length (commands st1) = 32" "ndx st1 < 32"
    using recv_in_bounds [of "receive f st"] Cons.prems by (auto simp: receive_def)
  show ?case using Cons.IH [OF st1(2,3)] st1(1) by simp
qed

lemma recv_fragments_append:
  "recv_fragments (xs @ ys) st = bnd (recv_fragments xs st) (recv_fragments ys)"
proof (induction xs arbitrary: st)
  case Nil
  show ?case by simp
next
  case (Cons x xs)
  show ?case by (cases "recvWithEndMarker (receive x st)") (simp_all add: Cons)
qed

text \<open>
  C8. Let the bytes of the serial line arrive in fragments of any size, with a call of
  \<open>recvWithEndMarker\<close> after each. Whatever the bytes are, every call returns without a
  write outside the 32-byte buffer, and the index stays below 32. When a line starts (index
  0, flag down) and its bytes, the ones already waiting in the queue, then the fragments
  \<open>frags\<close>, then \<open>final\<close>, are followed by the end marker, the call that meets the marker
  stops behind it with the flag raised and the index back at 0; the buffer then holds the
  first 31 bytes of the line (all of them if there are fewer), followed by NUL, so bytes
  beyond the 31st are lost. If the line has no NUL byte of its own, the C string in the
  buffer is exactly the first 31 bytes of the line.
\<close>

theorem line_accumulation:
  assumes "length (commands st) = numChars" and "ndx st < numChars"
  shows "(\<exists>st'. recv_fragments frags st = Inr st'
            \<and> length (commands st') = numChars \<and> ndx st' < numChars)
       \<and> (ndx st = 0 \<and> \<not> newData st
            \<and> endMarker \<notin> set (serial_in st @ concat frags @ final) \<longrightarrow>
          (\<exists>st'. recv_fragments (frags @ [final @ endMarker # rest]) st = Inr st'
             \<and> newData st' \<and> ndx st' = 0 \<and> serial_in st' = rest
             \<and> length (commands st') = numChars
             \<and> take (min (length (serial_in st @ concat frags @ final)) 31) (commands st')
                 = take 31 (serial_in st @ concat frags @ final)
             \<and> commands st' ! min (length (serial_in st @ concat frags @ final)) 31 = NUL
             \<and> (NUL \<notin> set (serial_in st @ concat frags @ final) \<longrightarrow>
                  cstring (commands st') = Inr (take 31 (serial_in st @ concat frags @ final)))))"
proof (intro conjI impI)
  show "\<exists>st'. recv_fragments frags st = Inr st'
            \<and> length (commands st') = numChars \<and> ndx st' < numChars"
    using assms by (rule frags_in_bounds)
next
  let ?line = "serial_in st @ concat frags @ final"
  let ?n = "min (length ?line) 31"
  assume h: "ndx st = 0 \<and> \<not> newData st \<and> endMarker \<notin> set ?line"
  have s0: "stored [] st" using h assms(1) by (simp add: stored_def)
  have "endMarker \<notin> set (serial_in st @ concat frags)" using h by simp
  then obtain st1 pre1 where st1: "recv_fragments frags st = Inr st1" "stored pre1 st1"
      "pre1 @ serial_in st1 = [] @ serial_in st @ concat frags"
      "endMarker \<notin> set (serial_in st1)"
    using frags_store [OF s0] by blast
  let ?st2 = "receive (final @ endMarker # rest) st1"
  have l: "pre1 @ serial_in st1 @ final = ?line" using st1(3) by simp
  have "\<exists>st'. recvWithEndMarker ?st2 = Inr st' \<and> newData st' \<and> ndx st' = 0 \<and> serial_in st' = rest
          \<and> length (commands st') = 32
          \<and> take (min (length (pre1 @ serial_in st1 @ final)) 31) (commands st')
              = take 31 (pre1 @ serial_in st1 @ final)
          \<and> commands st' ! min (length (pre1 @ serial_in st1 @ final)) 31 = NUL"
  proof (rule recv_line)
    show "length (commands ?st2) = 32" using st1(2) by (simp add: stored_def receive_def)
    show "\<not> newData ?st2" using st1(2) by (simp add: stored_def receive_def)
    show "ndx ?st2 = min (length pre1) 31" using st1(2) by (simp add: stored_def receive_def)
    show "take (ndx ?st2) (commands ?st2) = take 31 pre1"
      using st1(2) by (auto simp: stored_def receive_def)
    show "serial_in ?st2 = (serial_in st1 @ final) @ endMarker # rest"
      by (simp add: receive_def)
    show "endMarker \<notin> set (serial_in st1 @ final)" using st1(4) h by simp
  qed
  then obtain st' where st': "recvWithEndMarker ?st2 = Inr st'" "newData st'" "ndx st' = 0"
      "serial_in st' = rest" "length (commands st') = 32"
      "take ?n (commands st') = take 31 ?line" "commands st' ! ?n = NUL"
    unfolding l by blast
  have r: "recv_fragments (frags @ [final @ endMarker # rest]) st = Inr st'"
    by (simp add: recv_fragments_append st1(1) st'(1))
  have c: "cstring (commands st') = Inr (take 31 ?line)" if nn: "NUL \<notin> set ?line"
  proof -
    have "NUL \<notin> set (take ?n (commands st'))"
      using nn st'(6) by (metis in_set_takeD)
    moreover have "?n < length (commands st')" using st'(5) by simp
    ultimately have "cstring (commands st') = Inr (take ?n (commands st'))"
      using st'(7) by (intro cstring_prefix) simp_all
    then show ?thesis using st'(6) by simp
  qed
  show "\<exists>st'. recv_fragments (frags @ [final @ endMarker # rest]) st = Inr st'
             \<and> newData st' \<and> ndx st' = 0 \<and> serial_in st' = rest
             \<and> length (commands st') = numChars
             \<and> take ?n (commands st') = take 31 ?line
             \<and> commands st' ! ?n = NUL
             \<and> (NUL \<notin> set ?line \<longrightarrow> cstring (commands st') = Inr (take 31 ?line))"
    using r st' c by (intro exI [of _ st']) simp
qed

theorem line_accumulation_witness:
  "length (commands sketch_init) = numChars \<and> ndx sketch_init < numChars
   \<and> (\<exists>st'. recv_fragments [''HH90 RB+10 HV50 '', ''RT20 RI30 RM'',
                              ''40 RR50 RP60'' @ endMarker # ''HV5''] sketch_init = Inr st'
         \<and> newData st' \<and> ndx st' = 0 \<and> serial_in st' = ''HV5''
         \<and> cstring (commands st') = Inr ''HH90 RB+10 HV50 RT20 RI30 RM40 '')"
proof -
  have a: "length (commands sketch_init) = numChars" "ndx sketch_init < numChars"
    by (simp_all add: sketch_init_def)
  have h: "ndx sketch_init = 0 \<and> \<not> newData sketch_init
           \<and> endMarker \<notin> set (serial_in sketch_init
                 @ concat [''HH90 RB+10 HV50 '', ''RT20 RI30 RM''] @ ''40 RR50 RP60'')"
    by (simp add: sketch_init_def)
  have n: "NUL \<notin> set (serial_in sketch_init
                 @ concat [''HH90 RB+10 HV50 '', ''RT20 RI30 RM''] @ ''40 RR50 RP60'')"
    by (simp add: sketch_init_def)
  have t: "take 31 (serial_in sketch_init
                 @ concat [''HH90 RB+10 HV50 '', ''RT20 RI30 RM''] @ ''40 RR50 RP60'')
           = ''HH90 RB+10 HV50 RT20 RI30 RM40 ''"
    by (simp add: sketch_init_def)
  note l = line_accumulation [OF a, of "[''HH90 RB+10 HV50 '', ''RT20 RI30 RM'']"
      "''40 RR50 RP60''" "''HV5''", THEN conjunct2, rule_format, OF h]
  then obtain st' where s: "recv_fragments ([''HH90 RB+10 HV50 '', ''RT20 RI30 RM'']
        @ [''40 RR50 RP60'' @ endMarker # ''HV5'']) sketch_init = Inr st'"
      "newData st'" "ndx st' = 0" "serial_in st' = ''HV5''"
      "NUL \<notin> set (serial_in sketch_init
                 @ concat [''HH90 RB+10 HV50 '', ''RT20 RI30 RM''] @ ''40 RR50 RP60'') \<longrightarrow>
       cstring (commands st') = Inr (take 31 (serial_in sketch_init
                 @ concat [''HH90 RB+10 HV50 '', ''RT20 RI30 RM''] @ ''40 RR50 RP60''))"
    by blast
  have "cstring (commands st') = Inr ''HH90 RB+10 HV50 RT20 RI30 RM40 ''"
    using s(5) n t by simp
  moreover have "recv_fragments [''HH90 RB+10 HV50 '', ''RT20 RI30 RM'',
                              ''40 RR50 RP60'' @ endMarker # ''HV5''] sketch_init = Inr st'"
    using s(1) by simp
  ultimately show ?thesis using a s(2,3,4) by blast
qed

subsection \<open>The registry invariant and the dispatched commands\<close>

text \<open>
  The path through \<open>sendCommand\<close> keeps the invariant: from a state that satisfies it and
  whose time stamps are not ahead of the clock, every call of \<open>sendCommand\<close> returns a state
  that satisfies it, with no time stamp decreased (\<open>sendCommand_inv\<close> below).
\<close>

lemma pin_table:
  assumes "getControlPin servo > - 1"
  shows "0 \<le> getControlPin servo \<and> getControlPin servo < 32
         \<and> 0 \<le> getServoMin (getControlPin servo)
         \<and> getServoMin (getControlPin servo) < getServoMax (getControlPin servo)
         \<and> getServoMax (getControlPin servo) \<le> 180"
  using assms
  by (simp add: getControlPin_def getServoMin_def getServoMax_def split: if_splits)

lemma percentage_in_range:
  assumes "is_int minimum" "is_int maximum" "minimum \<le> maximum"
  shows "\<exists>d. getCalculatedDegreesFromPercentage p minimum maximum = Inr d
             \<and> minimum \<le> d \<and> d \<le> maximum"
proof -
  have c: "0 \<le> clampPercentage p" "clampPercentage p \<le> 100"
    using clampPercentage_range [of p] by simp_all
  have "0 \<le> (maximum - minimum) * clampPercentage p div 100"
       "(maximum - minimum) * clampPercentage p div 100 \<le> maximum - minimum"
    using scaled_bounds [of "clampPercentage p" "maximum - minimum"] c assms by simp_all
  then show ?thesis
    using fromPercentage_value [OF assms, of p] by simp
qed

lemma relative_in_range:
  assumes "is_int minimum" "is_int maximum" "minimum < maximum"
  shows "\<exists>d. getCalculatedRelativeDegrees v minimum maximum current = Inr d
             \<and> minimum \<le> d \<and> d \<le> maximum"
proof -
  have "int32 (maximum - minimum) = maximum - minimum"
    using assms by (intro int32_id) (simp_all add: is_int_def)
  then have "int32 (maximum - minimum) \<noteq> 0" using assms by simp
  then obtain r where r: "map_arduino current minimum maximum 0 100 = Inr r"
    by (simp add: map_arduino_def Let_def)
  define np where "np = int16 (int16 r + v)"
  define c where "c = (if (if np > 100 then 100 else np) < 0 then 0 else (if np > 100 then 100 else np))"
  have c: "0 \<le> c" "c \<le> 100" by (simp_all add: c_def)
  have m: "map_arduino c 0 100 minimum maximum = Inr (minimum + (maximum - minimum) * c div 100)"
    using assms c by (intro map_arduino_percent) simp_all
  have q: "0 \<le> (maximum - minimum) * c div 100" "(maximum - minimum) * c div 100 \<le> maximum - minimum"
    using scaled_bounds [of c "maximum - minimum"] c assms by simp_all
  then have "is_int (minimum + (maximum - minimum) * c div 100)"
    using assms by (simp add: is_int_def)
  then have i: "int16 (minimum + (maximum - minimum) * c div 100)
                = minimum + (maximum - minimum) * c div 100"
    by (rule int16_id)
  have "getCalculatedRelativeDegrees v minimum maximum current
        = bnd (map_arduino c 0 100 minimum maximum) (\<lambda>r. Inr (int16 r))"
    unfolding getCalculatedRelativeDegrees_def r
    by (simp add: Let_def np_def c_def)
  then have "getCalculatedRelativeDegrees v minimum maximum current
        = Inr (minimum + (maximum - minimum) * c div 100)"
    by (simp add: m i)
  then show ?thesis using q by simp
qed

lemma angle_ok_update:
  "list_all angle_ok xs \<Longrightarrow> 0 \<le> d \<Longrightarrow> d \<le> 180 \<Longrightarrow> list_all angle_ok (xs[n := d])"
  by (auto simp: list_all_iff angle_ok_def dest!: set_update_subset_insert [THEN subsetD])

lemma stamps_update:
  assumes "list_all (\<lambda>t. t \<le> now) xs"
  shows "list_all2 (\<le>) xs (xs[n := now]) \<and> list_all (\<lambda>t. t \<le> now) (xs[n := (now::int)])"
proof
  show "list_all2 (\<le>) xs (xs[n := now])"
    using assms
    by (cases "n < length xs") (auto simp: list_all2_conv_all_nth list_all_length nth_list_update)
  show "list_all (\<lambda>t. t \<le> now) (xs[n := now])"
    using assms by (auto simp: list_all_iff dest!: set_update_subset_insert [THEN subsetD])
qed

lemma setServoDegrees_inv:
  assumes "hat_inv h" "0 \<le> p" "p < 32" "0 \<le> d" "d \<le> 180"
          "list_all (\<lambda>t. t \<le> now) (lastUpdated h)"
  shows "\<exists>h'. AdaHat_setServoDegrees p d now h = Inr h' \<and> hat_inv h'
              \<and> servoPoss h' ! nat p = d
              \<and> list_all2 (\<le>) (lastUpdated h) (lastUpdated h')
              \<and> list_all (\<lambda>t. t \<le> now) (lastUpdated h')"
proof -
  have len: "length (servoMins h) = 32" "length (servoMaxs h) = 32"
            "length (servoPoss h) = 32" "length (lastUpdated h) = 32"
    using assms(1) by (simp_all add: hat_inv_def)
  have "int32 (180 - 0) \<noteq> 0" by (simp add: int32_def)
  then obtain r where r: "map_arduino d 0 180 (servoMins h ! nat p) (servoMaxs h ! nat p) = Inr r"
    by (simp add: map_arduino_def Let_def)
  let ?h1 = "h\<lparr>servoPoss := (servoPoss h)[nat p := d], lastUpdated := (lastUpdated h)[nat p := now]\<rparr>"
  have a: "list_all angle_ok ((servoPoss h)[nat p := d])"
    using assms by (intro angle_ok_update) (simp_all add: hat_inv_def)
  have i1: "hat_inv ?h1"
    using assms(1) a by (simp add: hat_inv_def)
  have e: "AdaHat_setServoDegrees p d now h
        = Inr (if p < 16 then ?h1\<lparr>pwm := pwm h @ [SetPWM 0 p 0 (int16 r)]\<rparr>
               else ?h1\<lparr>pwm := pwm h @ [SetPWM 1 (int16 (p - 16)) 0 (int16 r)]\<rparr>)"
    using assms(2,3) len r by (simp add: AdaHat_setServoDegrees_def rd_def wr_def Let_def)
  show ?thesis
    unfolding e using i1 assms(2,3) len stamps_update [OF assms(6), of "nat p"]
    by (simp add: hat_inv_def)
qed

lemma hat_setServoDegrees_inv:
  assumes "hat_inv (hat st)" "0 \<le> p" "p < 32" "0 \<le> d" "d \<le> 180"
          "list_all (\<lambda>t. t \<le> millis st) (lastUpdated (hat st))"
  shows "\<exists>st'. hat_setServoDegrees p d st = Inr st' \<and> hat_inv (hat st')
              \<and> hat_getServoDegrees p st' = Inr d
              \<and> stamps_le st st' \<and> millis st' = millis st
              \<and> list_all (\<lambda>t. t \<le> millis st) (lastUpdated (hat st'))"
proof -
  obtain h' where h: "AdaHat_setServoDegrees p d (millis st) (hat st) = Inr h'" "hat_inv h'"
      "servoPoss h' ! nat p = d"
      "list_all2 (\<le>) (lastUpdated (hat st)) (lastUpdated h')"
      "list_all (\<lambda>t. t \<le> millis st) (lastUpdated h')"
    using setServoDegrees_inv [OF assms] by blast
  have "length (servoPoss h') = 32" using h(2) by (simp add: hat_inv_def)
  then show ?thesis
    using h assms(2,3)
    by (simp add: hat_setServoDegrees_def hat_getServoDegrees_def AdaHat_getServoDegrees_def
        rd_def stamps_le_def)
qed


lemma stamps_le_refl: "stamps_le st st"
  by (simp add: stamps_le_def list_all2_refl)

lemma stamps_le_trans: "stamps_le a b \<Longrightarrow> stamps_le b c \<Longrightarrow> stamps_le a c"
  unfolding stamps_le_def by (rule list_all2_trans [of "(\<le>)" "(\<le>)" "(\<le>)"]) auto

lemma getServoDegrees_ok:
  assumes "hat_inv (hat st)" "0 \<le> p" "p < 32"
  shows "\<exists>cur. hat_getServoDegrees p st = Inr cur"
  using assms
  by (simp add: hat_getServoDegrees_def AdaHat_getServoDegrees_def rd_def hat_inv_def)

lemma sendCommand_inv:
  assumes inv: "hat_inv (hat st)"
      and le: "list_all (\<lambda>t. t \<le> millis st) (lastUpdated (hat st))"
  shows "\<exists>st'. sendCommand servo v relative st = Inr st' \<and> hat_inv (hat st')
               \<and> stamps_le st st' \<and> millis st' = millis st
               \<and> list_all (\<lambda>t. t \<le> millis st) (lastUpdated (hat st'))"
proof (cases "getControlPin servo > - 1")
  case False
  then have "sendCommand servo v relative st
             = Inr (Serial_println servo (Serial_print ''E100: Unsupported Servo: '' st))"
    by (simp add: sendCommand_def)
  then show ?thesis
    using inv le by (simp add: Serial_println_def Serial_print_def stamps_le_def list_all2_refl)
next
  case True
  define p where "p = getControlPin servo"
  define mn where "mn = getServoMin p"
  define mx where "mx = getServoMax p"
  define v1 where "v1 = (if p = PIN_INVERT then int16 (100 - v) else v)"
  have tb: "0 \<le> p" "p < 32" "0 \<le> mn" "mn < mx" "mx \<le> 180"
    using pin_table [OF True] by (simp_all add: p_def mn_def mx_def)
  have ii: "is_int mn" "is_int mx" "mn \<le> mx" using tb by (simp_all add: is_int_def)
  have set_ok: "\<exists>st'. hat_setServoDegrees p d s = Inr st' \<and> hat_inv (hat st')
              \<and> hat_getServoDegrees p st' = Inr d
              \<and> stamps_le s st' \<and> millis st' = millis s
              \<and> list_all (\<lambda>t. t \<le> millis s) (lastUpdated (hat st'))"
    if "hat_inv (hat s)" "list_all (\<lambda>t. t \<le> millis s) (lastUpdated (hat s))" "mn \<le> d" "d \<le> mx"
    for d s
    using that tb by (intro hat_setServoDegrees_inv) simp_all
  show ?thesis
  proof (cases relative)
    case False
    obtain d where d: "getCalculatedDegreesFromPercentage v1 mn mx = Inr d" "mn \<le> d" "d \<le> mx"
      using percentage_in_range [OF ii, of v1] by blast
    have "sendCommand servo v relative st = hat_setServoDegrees p d st"
      using True False d(1)
      by (simp add: sendCommand_def Let_def p_def [symmetric] mn_def [symmetric]
          mx_def [symmetric] v1_def [symmetric])
    then show ?thesis using set_ok [OF inv le d(2,3)] by auto
  next
    case rel: True
    obtain cur where cur: "hat_getServoDegrees p st = Inr cur"
      using getServoDegrees_ok [OF inv tb(1,2)] by blast
    obtain d0 where d0: "getCalculatedDegreesFromPercentage 50 mn mx = Inr d0" "mn \<le> d0" "d0 \<le> mx"
      using percentage_in_range [OF ii, of 50] by blast
    define base where "base = (if cur = - 1 then hat_setServoDegrees p d0 st else Inr st)"
    have "\<exists>st1. base = Inr st1 \<and> hat_inv (hat st1) \<and> stamps_le st st1 \<and> millis st1 = millis st
              \<and> list_all (\<lambda>t. t \<le> millis st) (lastUpdated (hat st1))"
    proof (cases "cur = - 1")
      case True
      then show ?thesis using set_ok [OF inv le d0(2,3)] by (auto simp: base_def)
    next
      case False
      then show ?thesis using inv le by (simp add: base_def stamps_le_refl)
    qed
    then obtain st1 where st1: "base = Inr st1" "hat_inv (hat st1)" "stamps_le st st1"
        "millis st1 = millis st" "list_all (\<lambda>t. t \<le> millis st) (lastUpdated (hat st1))"
      by blast
    obtain current where current: "hat_getServoDegrees p st1 = Inr current"
      using getServoDegrees_ok [OF st1(2) tb(1,2)] by blast
    obtain d where d: "getCalculatedRelativeDegrees v1 mn mx current = Inr d" "mn \<le> d" "d \<le> mx"
      using relative_in_range [OF ii(1,2) tb(4), of v1 current] by blast
    have "sendCommand servo v relative st
          = bnd base (\<lambda>st1. bnd (hat_getServoDegrees p st1) (\<lambda>current.
              bnd (getCalculatedRelativeDegrees v1 mn mx current) (\<lambda>d. hat_setServoDegrees p d st1)))"
      using True rel cur d0(1)
      by (simp add: sendCommand_def Let_def p_def [symmetric] mn_def [symmetric]
          mx_def [symmetric] v1_def [symmetric] base_def)
    then have e: "sendCommand servo v relative st = hat_setServoDegrees p d st1"
      by (simp add: st1(1) current d(1))
    have le1: "list_all (\<lambda>t. t \<le> millis st1) (lastUpdated (hat st1))"
      using st1(4,5) by simp
    obtain st' where st': "hat_setServoDegrees p d st1 = Inr st'" "hat_inv (hat st')"
        "stamps_le st1 st'" "millis st' = millis st1"
        "list_all (\<lambda>t. t \<le> millis st1) (lastUpdated (hat st'))"
      using set_ok [OF st1(2) le1 d(2,3)] by blast
    show ?thesis
      using e st' st1(4) stamps_le_trans [OF st1(3) st'(3)] by simp
  qed
qed


lemma startup_inv:
  "case startup of Inl e \<Rightarrow> False
   | Inr st0 \<Rightarrow> hat_inv (hat st0) \<and> list_all (\<lambda>t. t \<le> 0) (lastUpdated (hat st0))"
  by code_simp

text \<open>
  C9 fails on the code once \<^verbatim>\<open>DP\<close> is among the dispatched commands. The state after
  \<^verbatim>\<open>setup()\<close> satisfies the invariant and \<open>sendCommand\<close> keeps it (the lemmas above), but
  \<open>processCommands\<close> dispatches the code \<^verbatim>\<open>DP\<close> to \<open>setDefaultPositions\<close>, which runs past
  its list of pins: the invariant holds after the line \<^verbatim>\<open>HH90\<close>, but the next line
  \<^verbatim>\<open>DP0\<close> ends in the read of \<^verbatim>\<open>pins[10]\<close>, and what the source then passes to
  \<^verbatim>\<open>hat.setServoDegrees\<close> as a channel is not a channel of the list.
\<close>

theorem DP_breaks_registry_invariant:
  "invariant_after (run_line ''HH90'' startup)
   \<and> run_line ''DP0'' (run_line ''HH90'' startup) = Inl (IndexOutOfBounds 10)
   \<and> \<not> invariant_after (run_line ''DP0'' (run_line ''HH90'' startup))"
  by code_simp

end
